theory Spec2Isabelle
  imports Main "HOL-Library.Sublist"
begin

section \<open>The source command of Sir Robin (bot/exts/source.py)\<close>

text \<open>
  The extension \<^verbatim>\<open>bot/exts/source.py\<close> holds one cog, \<^verbatim>\<open>BotSource\<close>, with the
  command \<^verbatim>\<open>source_command\<close> and the two helpers \<^verbatim>\<open>get_source_link\<close> and
  \<^verbatim>\<open>build_embed\<close>. Each of them is embedded below as a HOL function. Python strings are
  \<^typ>\<open>string\<close>, one \<^typ>\<open>char\<close> per code point (code points below 256), Python's
  unbounded integers are \<^typ>\<open>int\<close>, and an exception is the \<open>Inl\<close> side of a sum.

  What the code asks of the interpreter and of the libraries (the results of
  \<^verbatim>\<open>inspect.getsourcefile\<close> and \<^verbatim>\<open>inspect.getsourcelines\<close>, the working directory,
  the path convention of the host, the configured repository URL) is a parameter: the
  record \<open>world\<close>. The string and path operations the code calls (\<^verbatim>\<open>str.splitlines\<close>,
  the formatting of an integer, \<^verbatim>\<open>pathlib\<close>'s parsing, \<^verbatim>\<open>relative_to\<close> and
  \<^verbatim>\<open>as_posix\<close>) are written out, following CPython 3.11.
\<close>

subsection \<open>Exceptions\<close>

text \<open>
  The exceptions that the code raises, catches or lets through. \<open>BadArgument\<close> is
  \<^verbatim>\<open>commands.BadArgument\<close> with its message. A subclass of \<^verbatim>\<open>OSError\<close> counts as
  \<open>OSError\<close>, since \<^verbatim>\<open>except OSError\<close> catches it.
\<close>

datatype py_exc =
    TypeError
  | OSError
  | ValueError
  | IndexError
  | AttributeError
  | BadArgument string

subsection \<open>Strings\<close>

text \<open>Characters that have no literal inside an Isabelle string.\<close>

definition backslash :: char where
  "backslash = CHR 0x5C"

definition apostrophe :: char where
  "apostrophe = CHR 0x27"

text \<open>\<^verbatim>\<open>str(n)\<close> and \<^verbatim>\<open>f"{n}"\<close> for an integer: decimal digits, a minus sign when negative.\<close>

definition digit_char :: "nat \<Rightarrow> char" where
  "digit_char d = ''0123456789'' ! d"

fun str_nat :: "nat \<Rightarrow> string" where
  "str_nat n = (if n < 10 then [digit_char n] else str_nat (n div 10) @ [digit_char (n mod 10)])"

declare str_nat.simps [simp del]

definition str_int :: "int \<Rightarrow> string" where
  "str_int i = (if i < 0 then CHR ''-'' # str_nat (nat (- i)) else str_nat (nat i))"

text \<open>Reading a decimal numeral back (\<^verbatim>\<open>int(s)\<close>), to state that \<open>str_int\<close> writes
  decimal notation.\<close>

definition digit_value :: "char \<Rightarrow> nat" where
  "digit_value c = of_char c - 48"

definition nat_of_digits :: "string \<Rightarrow> nat" where
  "nat_of_digits s = foldl (\<lambda>acc c. 10 * acc + digit_value c) 0 s"

definition int_of_decimal :: "string \<Rightarrow> int" where
  "int_of_decimal s =
     (case s of
        [] \<Rightarrow> 0
      | c # r \<Rightarrow> if c = CHR ''-'' then - int (nat_of_digits r) else int (nat_of_digits s))"

text \<open>
  \<^verbatim>\<open>str.splitlines()\<close>: the line boundaries among the code points below 256 are
  LF, VT, FF, CR, FS, GS, RS and NEL; CR LF is one boundary; no line is produced after the
  last boundary, so the empty string has no line at all.
\<close>

definition is_linebreak :: "char \<Rightarrow> bool" where
  "is_linebreak c \<longleftrightarrow> c \<in> {CHR 0x0A, CHR 0x0B, CHR 0x0C, CHR 0x0D, CHR 0x1C, CHR 0x1D, CHR 0x1E, CHR 0x85}"

fun splitlines_from :: "string \<Rightarrow> string \<Rightarrow> string list" where
  "splitlines_from cur [] = (if cur = [] then [] else [cur])"
| "splitlines_from cur (c # cs) =
     (if c = CHR 0x0D then
        (case cs of
           d # ds \<Rightarrow> if d = CHR 0x0A then cur # splitlines_from [] ds
                     else cur # splitlines_from [] cs
         | [] \<Rightarrow> cur # splitlines_from [] cs)
      else if is_linebreak c then cur # splitlines_from [] cs
      else splitlines_from (cur @ [c]) cs)"

definition splitlines :: "string \<Rightarrow> string list" where
  "splitlines s = splitlines_from [] s"

text \<open>\<^verbatim>\<open>s.replace(old, new)\<close> for one-character strings, \<^verbatim>\<open>s.split(sep)\<close>,
  \<^verbatim>\<open>sep.join(parts)\<close>, \<^verbatim>\<open>s.lstrip(sep)\<close> and \<^verbatim>\<open>s.find(sep, start)\<close>.\<close>

definition replace_char :: "char \<Rightarrow> char \<Rightarrow> string \<Rightarrow> string" where
  "replace_char old new s = map (\<lambda>c. if c = old then new else c) s"

fun split_on :: "char \<Rightarrow> string \<Rightarrow> string list" where
  "split_on s [] = [[]]"
| "split_on s (c # cs) =
     (if c = s then [] # split_on s cs
      else (case split_on s cs of
              l # ls \<Rightarrow> (c # l) # ls
            | [] \<Rightarrow> [[c]]))"

fun join :: "string \<Rightarrow> string list \<Rightarrow> string" where
  "join s [] = []"
| "join s [x] = x"
| "join s (x # y # ys) = x @ s @ join s (y # ys)"

definition lstrip :: "char \<Rightarrow> string \<Rightarrow> string" where
  "lstrip s p = dropWhile (\<lambda>c. c = s) p"

fun find_in :: "char \<Rightarrow> nat \<Rightarrow> string \<Rightarrow> nat option" where
  "find_in s i [] = None"
| "find_in s i (c # cs) = (if c = s then Some i else find_in s (Suc i) cs)"

definition find_from :: "char \<Rightarrow> nat \<Rightarrow> string \<Rightarrow> nat option" where
  "find_from s start p = find_in s start (drop start p)"

subsection \<open>Paths (pathlib)\<close>

text \<open>
  The two conventions of \<^verbatim>\<open>pathlib\<close>: \<^verbatim>\<open>_PosixFlavour\<close> (separator \<open>/\<close>, case
  sensitive) and \<^verbatim>\<open>_WindowsFlavour\<close> (separator backslash, \<open>/\<close> as alternative
  separator, drives, compared without case).
\<close>

datatype flavour = PosixFlavour | WindowsFlavour

fun sep :: "flavour \<Rightarrow> char" where
  "sep PosixFlavour = CHR ''/''"
| "sep WindowsFlavour = backslash"

fun altsep :: "flavour \<Rightarrow> char option" where
  "altsep PosixFlavour = None"
| "altsep WindowsFlavour = Some CHR ''/''"

text \<open>\<^verbatim>\<open>str.lower()\<close> on the code points below 256.\<close>

definition lower_char :: "char \<Rightarrow> char" where
  "lower_char c =
     (let n = of_char c :: nat in
      if (65 \<le> n \<and> n \<le> 90) \<or> (192 \<le> n \<and> n \<le> 214) \<or> (216 \<le> n \<and> n \<le> 222)
      then char_of (n + 32) else c)"

definition lower :: "string \<Rightarrow> string" where
  "lower s = map lower_char s"

fun casefold :: "flavour \<Rightarrow> string \<Rightarrow> string" where
  "casefold PosixFlavour s = s"
| "casefold WindowsFlavour s = lower s"

definition casefold_parts :: "flavour \<Rightarrow> string list \<Rightarrow> string list" where
  "casefold_parts fl ps = map (casefold fl) ps"

definition is_drive_letter :: "char \<Rightarrow> bool" where
  "is_drive_letter c \<longleftrightarrow>
     (let n = of_char c :: nat in (65 \<le> n \<and> n \<le> 90) \<or> (97 \<le> n \<and> n \<le> 122))"

text \<open>\<^verbatim>\<open>_WindowsFlavour._split_extended_path\<close>: the prefix \<^verbatim>\<open>\\?\\<close> and \<^verbatim>\<open>\\?\UNC\\<close>.\<close>

definition split_extended_path :: "string \<Rightarrow> string \<times> string" where
  "split_extended_path s =
     (if take 4 s = [backslash, backslash, CHR ''?'', backslash] then
        (let pfx = take 4 s; s' = drop 4 s in
         if take 4 s' = ''UNC'' @ [backslash]
         then (pfx @ take 3 s', backslash # drop 3 s')
         else (pfx, s'))
      else ([], s))"

text \<open>\<^verbatim>\<open>splitroot\<close>: a path string into drive, root and the rest.\<close>

definition posix_splitroot :: "string \<Rightarrow> string \<times> string \<times> string" where
  "posix_splitroot part =
     (if part \<noteq> [] \<and> hd part = CHR ''/'' then
        (let stripped_part = lstrip CHR ''/'' part in
         if length part - length stripped_part = 2
         then ([], ''//'', stripped_part)
         else ([], ''/'', stripped_part))
      else ([], [], part))"

definition windows_drive_root :: "string \<Rightarrow> string \<Rightarrow> string \<times> string \<times> string" where
  "windows_drive_root pfx part =
     (let first = take 1 part; second = take 1 (drop 1 part); third = take 1 (drop 2 part);
          has_drv = (second = '':'' \<and> first \<noteq> [] \<and> is_drive_letter (hd first));
          drv = (if has_drv then take 2 part else []);
          part' = (if has_drv then drop 2 part else part);
          first' = (if has_drv then third else first)
      in if first' = [backslash]
         then (pfx @ drv, first', lstrip backslash part')
         else (pfx @ drv, [], part'))"

definition unc_result :: "string \<Rightarrow> string \<Rightarrow> nat \<Rightarrow> string \<times> string \<times> string" where
  "unc_result pfx part index2 =
     (if pfx \<noteq> []
      then (pfx @ drop 1 (take index2 part), [backslash], drop (index2 + 1) part)
      else (take index2 part, [backslash], drop (index2 + 1) part))"

text \<open>The UNC branch of \<^verbatim>\<open>_WindowsFlavour.splitroot\<close>; \<open>None\<close> when it does not return.\<close>

definition windows_unc :: "string \<Rightarrow> string \<Rightarrow> (string \<times> string \<times> string) option" where
  "windows_unc pfx part =
     (if take 1 (drop 1 part) = [backslash] \<and> take 1 part = [backslash]
         \<and> take 1 (drop 2 part) \<noteq> [backslash] then
        (case find_from backslash 2 part of
           None \<Rightarrow> None
         | Some index \<Rightarrow>
             (case find_from backslash (index + 1) part of
                None \<Rightarrow> Some (unc_result pfx part (length part))
              | Some index2 \<Rightarrow>
                  if index2 = index + 1 then None else Some (unc_result pfx part index2)))
      else None)"

definition windows_splitroot :: "string \<Rightarrow> string \<times> string \<times> string" where
  "windows_splitroot part0 =
     (let (pfx, part) =
            (if take 1 (drop 1 part0) = [backslash] \<and> take 1 part0 = [backslash]
             then split_extended_path part0 else ([], part0))
      in case windows_unc pfx part of
           Some res \<Rightarrow> res
         | None \<Rightarrow> windows_drive_root pfx part)"

fun splitroot :: "flavour \<Rightarrow> string \<Rightarrow> string \<times> string \<times> string" where
  "splitroot PosixFlavour part = posix_splitroot part"
| "splitroot WindowsFlavour part = windows_splitroot part"

text \<open>
  A parsed path, as \<^verbatim>\<open>PurePath\<close> keeps it: \<^verbatim>\<open>_drv\<close>, \<^verbatim>\<open>_root\<close> and \<^verbatim>\<open>_parts\<close>,
  where \<^verbatim>\<open>_parts\<close> starts with drive plus root when one of them is not empty.
\<close>

record pure_path =
  drv :: string
  root :: string
  parts :: "string list"

text \<open>
  \<^verbatim>\<open>Path(filename)\<close> for one string: \<^verbatim>\<open>parse_parts([filename])\<close>. Empty components
  and \<open>.\<close> are dropped.
\<close>

definition parse_parts :: "flavour \<Rightarrow> string \<Rightarrow> pure_path" where
  "parse_parts fl part0 =
     (if part0 = [] then \<lparr>drv = [], root = [], parts = []\<rparr>
      else
        (let part = (case altsep fl of None \<Rightarrow> part0 | Some a \<Rightarrow> replace_char a (sep fl) part0);
             (d, r, rel) = splitroot fl part;
             parsed = filter (\<lambda>x. x \<noteq> [] \<and> x \<noteq> ''.'') (split_on (sep fl) rel)
         in \<lparr>drv = d, root = r,
             parts = (if d \<noteq> [] \<or> r \<noteq> [] then (d @ r) # parsed else parsed)\<rparr>))"

text \<open>
  \<^verbatim>\<open>PurePath.relative_to(other)\<close> with one argument that is a path already (its parts are
  parsed again by the library, which gives the same path back for the parts of a
  directory that exists). \<open>ValueError\<close> when \<open>other\<close> is not a prefix.
\<close>

definition abs_parts :: "pure_path \<Rightarrow> string list" where
  "abs_parts p = (if root p \<noteq> [] then [drv p, root p] @ tl (parts p) else parts p)"

definition relative_to :: "flavour \<Rightarrow> pure_path \<Rightarrow> pure_path \<Rightarrow> py_exc + pure_path" where
  "relative_to fl self other =
     (let ap = abs_parts self; to_abs_parts = abs_parts other; n = length to_abs_parts in
      if (if n = 0 then root self \<noteq> [] \<or> drv self \<noteq> []
          else casefold_parts fl (take n ap) \<noteq> casefold_parts fl to_abs_parts)
      then Inl ValueError
      else Inr \<lparr>drv = [], root = (if n = 1 then root self else []), parts = drop n ap\<rparr>)"

text \<open>\<^verbatim>\<open>str(path)\<close> and \<^verbatim>\<open>path.as_posix()\<close>.\<close>

definition format_parsed_parts :: "flavour \<Rightarrow> pure_path \<Rightarrow> string" where
  "format_parsed_parts fl p =
     (if drv p \<noteq> [] \<or> root p \<noteq> [] then drv p @ root p @ join [sep fl] (tl (parts p))
      else join [sep fl] (parts p))"

definition str_path :: "flavour \<Rightarrow> pure_path \<Rightarrow> string" where
  "str_path fl p = (let s = format_parsed_parts fl p in if s = [] then ''.'' else s)"

definition as_posix :: "flavour \<Rightarrow> pure_path \<Rightarrow> string" where
  "as_posix fl p = replace_char (sep fl) CHR ''/'' (str_path fl p)"

subsection \<open>Objects of the bot\<close>

text \<open>
  A code object with the attribute the code reads (\<^verbatim>\<open>co_filename\<close>); a callable is a
  function with its code, a wrapper with \<^verbatim>\<open>__wrapped__\<close> (what \<^verbatim>\<open>inspect.unwrap\<close>
  follows), or a callable without \<^verbatim>\<open>__code__\<close> such as a \<^verbatim>\<open>functools.partial\<close>.
\<close>

record code_object =
  co_name :: string
  co_filename :: string
  co_firstlineno :: int

datatype callable =
    Function code_object
  | Wrapper callable
  | Partial callable

record py_class =
  cls_module :: string
  cls_name :: string

record command =
  cmd_qualified_name :: string
  cmd_short_doc :: string
  cmd_callback :: callable

record cog =
  cog_type :: py_class
  cog_qualified_name :: string
  cog_description :: string

record help_command =
  help_type :: py_class

text \<open>
  What \<^verbatim>\<open>SourceConverter\<close> hands over: a command, a cog or the help command. The
  code also tests for a string, so a string is a value of the type as well.
\<close>

datatype source_item =
    Command command
  | Cog cog
  | HelpCommand help_command
  | Str string

datatype src_object = CodeObj code_object | ClassObj py_class

definition str_class :: py_class where
  "str_class = \<lparr>cls_module = ''builtins'', cls_name = ''str''\<rparr>"

text \<open>\<^verbatim>\<open>type(source_item)\<close> for an item that is not a command.\<close>

fun type_of :: "source_item \<Rightarrow> py_class" where
  "type_of (Cog g) = cog_type g"
| "type_of (HelpCommand h) = help_type h"
| "type_of (Str s) = str_class"
| "type_of (Command c) = \<lparr>cls_module = ''discord.ext.commands.core'', cls_name = ''Command''\<rparr>"

fun is_str :: "source_item \<Rightarrow> bool" where
  "is_str (Str s) = True"
| "is_str _ = False"

text \<open>Truth value of an optional item: \<^verbatim>\<open>None\<close> and the empty string are false.\<close>

fun truthy :: "source_item option \<Rightarrow> bool" where
  "truthy None = False"
| "truthy (Some (Str s)) = (s \<noteq> [])"
| "truthy (Some _) = True"

fun unwrap :: "callable \<Rightarrow> callable" where
  "unwrap (Wrapper f) = unwrap f"
| "unwrap f = f"

subsection \<open>The world the code runs in\<close>

record world =
  github_bot_repo :: string
  getcwd :: string
  path_flavour :: flavour
  getsourcefile :: "py_class \<Rightarrow> py_exc + string option"
  getsourcelines :: "src_object \<Rightarrow> py_exc + string list \<times> int"

subsection \<open>Embeds and the context\<close>

record embed_field =
  field_name :: string
  field_value :: string
  field_inline :: bool

record embed =
  embed_title :: "string option"
  embed_description :: "string option"
  embed_fields :: "embed_field list"
  embed_thumbnail :: "string option"
  embed_footer :: "string option"

definition Embed :: "string option \<Rightarrow> string option \<Rightarrow> embed" where
  "Embed t d = \<lparr>embed_title = t, embed_description = d, embed_fields = [],
                embed_thumbnail = None, embed_footer = None\<rparr>"

definition add_field :: "string \<Rightarrow> string \<Rightarrow> embed \<Rightarrow> embed" where
  "add_field n v e =
     e\<lparr>embed_fields := embed_fields e @ [\<lparr>field_name = n, field_value = v, field_inline = True\<rparr>]\<rparr>"

definition set_thumbnail :: "string \<Rightarrow> embed \<Rightarrow> embed" where
  "set_thumbnail u e = e\<lparr>embed_thumbnail := Some u\<rparr>"

definition set_footer :: "string \<Rightarrow> embed \<Rightarrow> embed" where
  "set_footer t e = e\<lparr>embed_footer := Some t\<rparr>"

text \<open>The context records what was sent: \<^verbatim>\<open>ctx.send(embed=embed)\<close> appends.\<close>

record bot_context =
  sent :: "embed list"

definition send :: "embed \<Rightarrow> bot_context \<Rightarrow> bot_context" where
  "send e ctx = ctx\<lparr>sent := sent ctx @ [e]\<rparr>"

subsection \<open>get_source_link\<close>

definition dynamic_msg :: string where
  "dynamic_msg = ''Cannot get source for a dynamically-created object.''"

text \<open>
  Lines 47 to 56: the object whose source is looked up, its file name, and whether
  \<^verbatim>\<open>source_item\<close> (reassigned to the unwrapped callback for a command) is a string.
\<close>

definition resolve_src :: "world \<Rightarrow> source_item \<Rightarrow> py_exc + (bool \<times> src_object \<times> string option)" where
  "resolve_src w source_item =
     (case source_item of
        Command c \<Rightarrow>
          (case unwrap (cmd_callback c) of
             Function code \<Rightarrow> Inr (False, CodeObj code, Some (co_filename code))
           | _ \<Rightarrow> Inl AttributeError)
      | _ \<Rightarrow>
          (let src = type_of source_item in
           case getsourcefile w src of
             Inl TypeError \<Rightarrow> Inl (BadArgument dynamic_msg)
           | Inl e \<Rightarrow> Inl e
           | Inr filename \<Rightarrow> Inr (is_str source_item, ClassObj src, filename)))"

text \<open>Lines 58 to 67: the first line number and the line-range suffix.\<close>

definition line_range :: "world \<Rightarrow> bool \<Rightarrow> src_object \<Rightarrow> py_exc + (int option \<times> string)" where
  "line_range w item_is_str src =
     (if \<not> item_is_str then
        (case getsourcelines w src of
           Inl OSError \<Rightarrow> Inl (BadArgument dynamic_msg)
         | Inl e \<Rightarrow> Inl e
         | Inr (lines, first_line_no) \<Rightarrow>
             Inr (Some first_line_no,
                  ''#L'' @ str_int first_line_no @ ''-L''
                    @ str_int (first_line_no + int (length lines) - 1)))
      else Inr (None, []))"

text \<open>Line 69: \<^verbatim>\<open>Path(filename).relative_to(Path.cwd()).as_posix()\<close>.\<close>

definition file_location :: "world \<Rightarrow> string option \<Rightarrow> py_exc + string" where
  "file_location w filename =
     (case filename of
        None \<Rightarrow> Inl TypeError
      | Some f \<Rightarrow>
          (case relative_to (path_flavour w) (parse_parts (path_flavour w) f)
                  (parse_parts (path_flavour w) (getcwd w)) of
             Inl e \<Rightarrow> Inl e
           | Inr rel \<Rightarrow> Inr (as_posix (path_flavour w) rel)))"

text \<open>\<^verbatim>\<open>first_line_no or None\<close>.\<close>

fun or_None :: "int option \<Rightarrow> int option" where
  "or_None None = None"
| "or_None (Some n) = (if n = 0 then None else Some n)"

definition get_source_link :: "world \<Rightarrow> source_item \<Rightarrow> py_exc + (string \<times> string \<times> int option)" where
  "get_source_link w source_item =
     (case resolve_src w source_item of
        Inl e \<Rightarrow> Inl e
      | Inr (item_is_str, src, filename) \<Rightarrow>
          (case line_range w item_is_str src of
             Inl e \<Rightarrow> Inl e
           | Inr (first_line_no, lines_extension) \<Rightarrow>
               (case file_location w filename of
                  Inl e \<Rightarrow> Inl e
                | Inr location \<Rightarrow>
                    Inr (github_bot_repo w @ ''/blob/main/'' @ location @ lines_extension,
                         location, or_None first_line_no))))"

subsection \<open>build_embed\<close>

text \<open>Lines 79 to 84: title and description; a list index out of range is \<open>IndexError\<close>,
  an object without \<^verbatim>\<open>qualified_name\<close> is \<open>AttributeError\<close>.\<close>

definition title_description :: "source_item \<Rightarrow> py_exc + (string \<times> string)" where
  "title_description source_object =
     (case source_object of
        Command c \<Rightarrow> Inr (''Command: '' @ cmd_qualified_name c, cmd_short_doc c)
      | Cog g \<Rightarrow>
          (case splitlines (cog_description g) of
             [] \<Rightarrow> Inl IndexError
           | l # ls \<Rightarrow> Inr (''Cog: '' @ cog_qualified_name g, l))
      | _ \<Rightarrow> Inl AttributeError)"

definition line_text :: "int option \<Rightarrow> string" where
  "line_text first_line =
     (case first_line of
        None \<Rightarrow> []
      | Some n \<Rightarrow> if n \<noteq> 0 then '':'' @ str_int n else [])"

definition build_embed :: "world \<Rightarrow> source_item \<Rightarrow> py_exc + embed" where
  "build_embed w source_object =
     (case get_source_link w source_object of
        Inl e \<Rightarrow> Inl e
      | Inr (url, location, first_line) \<Rightarrow>
          (case title_description source_object of
             Inl e \<Rightarrow> Inl e
           | Inr (title, description) \<Rightarrow>
               Inr (set_footer (location @ line_text first_line)
                     (add_field ''Source Code'' (''[Go to GitHub]('' @ url @ '')'')
                       (Embed (Some title) (Some description))))))"

subsection \<open>source_command\<close>

definition thumbnail_url :: string where
  "thumbnail_url = ''https://avatars1.githubusercontent.com/u/9919''"

definition repository_embed :: "world \<Rightarrow> embed" where
  "repository_embed w =
     set_thumbnail thumbnail_url
       (add_field ''Repository'' (''[Go to GitHub]('' @ github_bot_repo w @ '')'')
         (Embed (Some (''Sir Robin'' @ [apostrophe] @ ''s GitHub Repository'')) None))"

definition help_embed :: "world \<Rightarrow> embed" where
  "help_embed w =
     set_thumbnail thumbnail_url
       (add_field ''Repository'' (''[Go to GitHub]('' @ github_bot_repo w @ '')'')
         (Embed (Some ''Help Command'')
            (Some (''We use Discord.py'' @ [apostrophe] @ ''s default help command.''))))"

definition source_command :: "world \<Rightarrow> bot_context \<Rightarrow> source_item option \<Rightarrow> py_exc + bot_context" where
  "source_command w ctx source_item =
     (if \<not> truthy source_item then Inr (send (repository_embed w) ctx)
      else
        (case source_item of
           Some (HelpCommand h) \<Rightarrow> Inr (send (help_embed w) ctx)
         | Some item \<Rightarrow>
             (case build_embed w item of
                Inl e \<Rightarrow> Inl e
              | Inr e \<Rightarrow> Inr (send e ctx))
         | None \<Rightarrow> Inr (send (repository_embed w) ctx)))"

subsection \<open>An example world\<close>

text \<open>
  A checkout in \<^verbatim>\<open>/bot\<close> on a POSIX host, with the cog of this file and its command;
  the help command of the framework, a command and a cog of installed packages, whose
  source is outside the checkout; and a command and two cogs created at run time, whose
  source the interpreter cannot find (one class has no file, the other is made by code of
  a module and has no class statement in its file).
\<close>

definition sir_robin_repo :: string where
  "sir_robin_repo = ''https://github.com/python-discord/sir-robin''"

definition BotSource_class :: py_class where
  "BotSource_class = \<lparr>cls_module = ''bot.exts.source'', cls_name = ''BotSource''\<rparr>"

definition source_code :: code_object where
  "source_code = \<lparr>co_name = ''source_command'', co_filename = ''/bot/bot/exts/source.py'',
                   co_firstlineno = 19\<rparr>"

definition eval_code :: code_object where
  "eval_code = \<lparr>co_name = ''func'', co_filename = ''<string>'', co_firstlineno = 1\<rparr>"

definition Help_class :: py_class where
  "Help_class = \<lparr>cls_module = ''discord.ext.commands.help'', cls_name = ''DefaultHelpCommand''\<rparr>"

definition Eval_class :: py_class where
  "Eval_class = \<lparr>cls_module = ''builtins'', cls_name = ''Temp''\<rparr>"

definition Made_class :: py_class where
  "Made_class = \<lparr>cls_module = ''bot.exts.source'', cls_name = ''Made''\<rparr>"

definition library_code :: code_object where
  "library_code = \<lparr>co_name = ''command_callback'',
                    co_filename = ''/usr/lib/python3/site-packages/discord/ext/commands/help.py'',
                    co_firstlineno = 238\<rparr>"

definition Library_class :: py_class where
  "Library_class = \<lparr>cls_module = ''extlib.cog'', cls_name = ''Extra''\<rparr>"

definition posix_world :: world where
  "posix_world =
     \<lparr>github_bot_repo = sir_robin_repo, getcwd = ''/bot'', path_flavour = PosixFlavour,
      getsourcefile = (\<lambda>c. if c = BotSource_class then Inr (Some ''/bot/bot/exts/source.py'')
                           else if c = Help_class
                           then Inr (Some ''/usr/lib/python3/site-packages/discord/ext/commands/help.py'')
                           else if c = Library_class
                           then Inr (Some ''/usr/lib/python3/site-packages/extlib/cog.py'')
                           else if c = Made_class then Inr (Some ''/bot/bot/exts/source.py'')
                           else Inl TypeError),
      getsourcelines = (\<lambda>s. if s = ClassObj BotSource_class then Inr (replicate 79 [], 13)
                            else if s = ClassObj Help_class then Inr (replicate 300 [], 900)
                            else if s = ClassObj Library_class then Inr (replicate 40 [], 7)
                            else if s = CodeObj source_code then Inr (replicate 21 [], 19)
                            else if s = CodeObj library_code then Inr (replicate 12 [], 238)
                            else Inl OSError)\<rparr>"

text \<open>The same checkout on a Windows host, in the directory \<open>bot\<close> of drive \<open>C:\<close>.\<close>

definition windows_world :: world where
  "windows_world =
     \<lparr>github_bot_repo = sir_robin_repo, getcwd = ''C:'' @ [backslash] @ ''bot'',
      path_flavour = WindowsFlavour,
      getsourcefile = (\<lambda>c. if c = BotSource_class
                           then Inr (Some (''C:'' @ [backslash] @ ''bot'' @ [backslash] @ ''bot''
                                  @ [backslash] @ ''exts'' @ [backslash] @ ''source.py''))
                           else Inl TypeError),
      getsourcelines = (\<lambda>s. if s = ClassObj BotSource_class then Inr (replicate 79 [], 13)
                            else Inl OSError)\<rparr>"

text \<open>A world that answers as \<open>posix_world\<close> for the cog of this file and differently for
  every other object.\<close>

definition other_world :: world where
  "other_world =
     posix_world
       \<lparr>getsourcefile := (\<lambda>c. if c = BotSource_class then Inr (Some ''/bot/bot/exts/source.py'')
                               else Inl OSError),
        getsourcelines := (\<lambda>s. if s = ClassObj BotSource_class then Inr (replicate 79 [], 13)
                                else Inl TypeError)\<rparr>"

definition source_cog :: cog where
  "source_cog = \<lparr>cog_type = BotSource_class, cog_qualified_name = ''BotSource'',
                  cog_description = ''Displays information'' @ [CHR 0x0A] @ ''about the bot.''\<rparr>"

definition source_cmd :: command where
  "source_cmd = \<lparr>cmd_qualified_name = ''source'', cmd_short_doc = ''Display information.'',
                  cmd_callback = Wrapper (Function source_code)\<rparr>"

definition eval_cmd :: command where
  "eval_cmd = \<lparr>cmd_qualified_name = ''temp'', cmd_short_doc = [],
                cmd_callback = Function eval_code\<rparr>"

definition eval_cog :: cog where
  "eval_cog = \<lparr>cog_type = Eval_class, cog_qualified_name = ''Temp'', cog_description = []\<rparr>"

definition made_cog :: cog where
  "made_cog = \<lparr>cog_type = Made_class, cog_qualified_name = ''Made'', cog_description = []\<rparr>"

definition library_cmd :: command where
  "library_cmd = \<lparr>cmd_qualified_name = ''help'', cmd_short_doc = ''Shows this message'',
                   cmd_callback = Function library_code\<rparr>"

definition library_cog :: cog where
  "library_cog = \<lparr>cog_type = Library_class, cog_qualified_name = ''Extra'',
                   cog_description = ''Extra commands.''\<rparr>"

definition undocumented_cog :: cog where
  "undocumented_cog = \<lparr>cog_type = BotSource_class, cog_qualified_name = ''BotSource'',
                        cog_description = []\<rparr>"

definition help_object :: help_command where
  "help_object = \<lparr>help_type = Help_class\<rparr>"

section \<open>Properties\<close>

subsection \<open>Unfolding the definitions on examples\<close>

lemmas ex_defs = sir_robin_repo_def BotSource_class_def source_code_def eval_code_def Help_class_def
  Eval_class_def Library_class_def posix_world_def windows_world_def source_cog_def source_cmd_def
  eval_cmd_def eval_cog_def library_cog_def undocumented_cog_def help_object_def other_world_def
  Made_class_def library_code_def made_cog_def library_cmd_def


lemmas eval_defs = get_source_link_def resolve_src_def line_range_def file_location_def
  parse_parts_def posix_splitroot_def lstrip_def relative_to_def abs_parts_def as_posix_def
  str_path_def format_parsed_parts_def replace_char_def str_int_def str_nat.simps digit_char_def
  dynamic_msg_def


subsection \<open>Strings\<close>

lemma splitlines_from_first:
  "cur \<noteq> [] \<or> s \<noteq> [] \<Longrightarrow>
   \<exists>rest. splitlines_from cur s = (cur @ takeWhile (\<lambda>c. \<not> is_linebreak c) s) # rest"
proof (induction s arbitrary: cur)
  case Nil
  then show ?case by simp
next
  case (Cons c cs)
  show ?case
  proof (cases "is_linebreak c")
    case True
    then show ?thesis by (auto split: list.splits)
  next
    case False
    then have nc: "c \<noteq> CHR 0x0D" by (auto simp: is_linebreak_def)
    from Cons.IH [of "cur @ [c]"] obtain rest where
      "splitlines_from (cur @ [c]) cs = ((cur @ [c]) @ takeWhile (\<lambda>c. \<not> is_linebreak c) cs) # rest"
      by auto
    with False nc show ?thesis by simp
  qed
qed

lemma splitlines_first_line:
  "s \<noteq> [] \<Longrightarrow> \<exists>rest. splitlines s = takeWhile (\<lambda>c. \<not> is_linebreak c) s # rest"
  using splitlines_from_first [of "[]" s] by (simp add: splitlines_def)

lemma splitlines_Nil_iff: "splitlines s = [] \<longleftrightarrow> s = []"
proof
  assume e: "splitlines s = []"
  show "s = []"
  proof (rule ccontr)
    assume "s \<noteq> []"
    from splitlines_first_line [OF this] e show False by auto
  qed
next
  assume "s = []"
  then show "splitlines s = []" by (simp add: splitlines_def)
qed

text \<open>\<open>str_int\<close> writes the decimal numeral of its argument, so it is injective.\<close>

lemma digit_value_digit_char: "d < 10 \<Longrightarrow> digit_value (digit_char d) = d"
proof -
  assume "d < 10"
  then have "d \<in> {0, 1, 2, 3, 4, 5, 6, 7, 8, 9}" by auto
  then show ?thesis by (auto simp: digit_value_def digit_char_def)
qed

lemma digit_char_not_minus: "d < 10 \<Longrightarrow> digit_char d \<noteq> CHR ''-''"
proof -
  assume "d < 10"
  then have "d \<in> {0, 1, 2, 3, 4, 5, 6, 7, 8, 9}" by auto
  then show ?thesis by (auto simp: digit_char_def)
qed

lemma nat_of_digits_snoc: "nat_of_digits (s @ [c]) = 10 * nat_of_digits s + digit_value c"
  by (simp add: nat_of_digits_def)

lemma nat_of_digits_str_nat: "nat_of_digits (str_nat n) = n"
proof (induction n rule: str_nat.induct)
  case (1 n)
  show ?case
  proof (cases "n < 10")
    case True
    then show ?thesis
      by (subst str_nat.simps) (simp add: nat_of_digits_def digit_value_digit_char)
  next
    case False
    with "1.IH" have "nat_of_digits (str_nat (n div 10)) = n div 10" by simp
    with False show ?thesis
      by (subst str_nat.simps) (simp add: nat_of_digits_snoc digit_value_digit_char)
  qed
qed

lemma str_nat_hd: "str_nat n \<noteq> [] \<and> hd (str_nat n) \<noteq> CHR ''-''"
proof (induction n rule: str_nat.induct)
  case (1 n)
  show ?case
  proof (cases "n < 10")
    case True
    then show ?thesis
      by (subst (1 2) str_nat.simps) (simp add: digit_char_not_minus)
  next
    case False
    with "1.IH" have "str_nat (n div 10) \<noteq> [] \<and> hd (str_nat (n div 10)) \<noteq> CHR ''-''" by simp
    with False show ?thesis
      by (subst (1 2) str_nat.simps) simp
  qed
qed

lemma int_of_decimal_str_int: "int_of_decimal (str_int i) = i"
proof (cases "i < 0")
  case True
  then show ?thesis by (simp add: int_of_decimal_def str_int_def nat_of_digits_str_nat)
next
  case False
  obtain c r where cr: "str_nat (nat i) = c # r" "c \<noteq> CHR ''-''"
    using str_nat_hd [of "nat i"] by (cases "str_nat (nat i)") auto
  have "nat_of_digits (c # r) = nat i" using nat_of_digits_str_nat [of "nat i"] cr(1) by simp
  with False cr show ?thesis by (simp add: int_of_decimal_def str_int_def)
qed

lemma str_int_inj: "str_int a = str_int b \<Longrightarrow> a = b"
  by (metis int_of_decimal_str_int)


lemma replace_char_absent: "old \<noteq> new \<Longrightarrow> old \<notin> set (replace_char old new s)"
  by (auto simp: replace_char_def)

lemma replace_char_id: "old \<notin> set s \<Longrightarrow> replace_char old new s = s"
  by (induction s) (auto simp: replace_char_def)

lemma replace_char_append: "replace_char a b (xs @ ys) = replace_char a b xs @ replace_char a b ys"
  by (simp add: replace_char_def)

lemma split_on_not_Nil: "split_on s str \<noteq> []"
  by (induction str) (auto split: list.splits)

lemma split_on_free: "p \<in> set (split_on s str) \<Longrightarrow> s \<notin> set p"
  by (induction str arbitrary: p) (auto split: list.splits if_splits)

lemma split_on_subset: "p \<in> set (split_on s str) \<Longrightarrow> set p \<subseteq> set str"
proof (induction str arbitrary: p)
  case Nil
  then show ?case by simp
next
  case (Cons a str)
  show ?case
  proof (cases "a = s")
    case True
    with Cons show ?thesis by auto
  next
    case False
    obtain l ls where ls: "split_on s str = l # ls"
      using split_on_not_Nil [of s str] by (cases "split_on s str") auto
    with False Cons.prems have "p = a # l \<or> p \<in> set ls" by auto
    then show ?thesis
    proof
      assume "p = a # l"
      moreover have "set l \<subseteq> set str" using Cons.IH [of l] ls by simp
      ultimately show ?thesis by auto
    next
      assume "p \<in> set ls"
      then have "set p \<subseteq> set str" using Cons.IH [of p] ls by simp
      then show ?thesis by auto
    qed
  qed
qed

lemma replace_char_join:
  "\<forall>p\<in>set ps. s \<notin> set p \<Longrightarrow> replace_char s c (join [s] ps) = join [c] ps"
  by (induction "[s]" ps rule: join.induct)
     (auto simp: replace_char_append replace_char_id, simp add: replace_char_def)


subsection \<open>Paths\<close>

lemma set_lstrip: "set (lstrip c p) \<subseteq> set p"
  by (auto simp: lstrip_def dest: set_dropWhileD)

lemma posix_splitroot_rel: "posix_splitroot p = (d, r, rel) \<Longrightarrow> set rel \<subseteq> set p"
  using set_lstrip [of "CHR ''/''" p]
  by (auto simp: posix_splitroot_def Let_def split: if_splits)

lemma posix_splitroot_root: "posix_splitroot p = (d, r, rel) \<Longrightarrow> r \<noteq> [] \<Longrightarrow> CHR ''/'' \<in> set r"
  by (auto simp: posix_splitroot_def Let_def split: if_splits)

lemma windows_drive_root_rel:
  "windows_drive_root pfx p = (d, r, rel) \<Longrightarrow> set rel \<subseteq> set p"
  using set_lstrip [of backslash p] set_lstrip [of backslash "drop 2 p"] set_drop_subset [of 2 p]
  by (auto simp: windows_drive_root_def Let_def split: if_splits)

lemma windows_drive_root_root:
  "windows_drive_root pfx p = (d, r, rel) \<Longrightarrow> r \<noteq> [] \<Longrightarrow> r = [backslash]"
  by (auto simp: windows_drive_root_def Let_def split: if_splits)

lemma split_extended_path_set: "set (snd (split_extended_path s)) \<subseteq> insert backslash (set s)"
  using set_drop_subset [of 4 s] set_drop_subset [of 3 "drop 4 s"]
  by (auto simp: split_extended_path_def Let_def)

lemma split_extended_path_set':
  "split_extended_path s = (pfx, part) \<Longrightarrow> set part \<subseteq> insert backslash (set s)"
  using split_extended_path_set [of s] by simp

lemma unc_result_rel: "unc_result pfx part i = (d, r, rel) \<Longrightarrow> set rel \<subseteq> set part \<and> r = [backslash]"
  using set_drop_subset [of "i + 1" part]
  by (auto simp: unc_result_def split: if_splits)

lemma windows_unc_rel:
  "windows_unc pfx part = Some (d, r, rel) \<Longrightarrow> set rel \<subseteq> set part \<and> r = [backslash]"
  by (auto simp: windows_unc_def split: if_splits option.splits dest!: unc_result_rel)

lemma windows_splitroot_rel:
  assumes "windows_splitroot p = (d, r, rel)"
  shows "set rel \<subseteq> insert backslash (set p)"
proof -
  obtain pfx part where pp: "(if take 1 (drop 1 p) = [backslash] \<and> take 1 p = [backslash]
             then split_extended_path p else ([], p)) = (pfx, part)"
    by (cases "(if take 1 (drop 1 p) = [backslash] \<and> take 1 p = [backslash]
             then split_extended_path p else ([], p))") auto
  then have part: "set part \<subseteq> insert backslash (set p)"
    by (auto split: if_splits dest: split_extended_path_set')
  have "set rel \<subseteq> set part"
  proof (cases "windows_unc pfx part")
    case None
    with assms pp have "windows_drive_root pfx part = (d, r, rel)"
      by (simp add: windows_splitroot_def)
    then show ?thesis by (rule windows_drive_root_rel)
  next
    case (Some res)
    with assms pp have "windows_unc pfx part = Some (d, r, rel)"
      by (simp add: windows_splitroot_def)
    then show ?thesis using windows_unc_rel by blast
  qed
  with part show ?thesis by blast
qed

lemma windows_splitroot_root:
  assumes "windows_splitroot p = (d, r, rel)" and "r \<noteq> []"
  shows "r = [backslash]"
proof -
  obtain pfx part where pp: "(if take 1 (drop 1 p) = [backslash] \<and> take 1 p = [backslash]
             then split_extended_path p else ([], p)) = (pfx, part)"
    by (cases "(if take 1 (drop 1 p) = [backslash] \<and> take 1 p = [backslash]
             then split_extended_path p else ([], p))") auto
  show ?thesis
  proof (cases "windows_unc pfx part")
    case None
    with assms pp have "windows_drive_root pfx part = (d, r, rel)"
      by (simp add: windows_splitroot_def)
    then show ?thesis using assms(2) by (rule windows_drive_root_root)
  next
    case (Some res)
    with assms pp have "windows_unc pfx part = Some (d, r, rel)"
      by (simp add: windows_splitroot_def)
    then show ?thesis using windows_unc_rel by blast
  qed
qed

lemma splitroot_root:
  "splitroot fl p = (d, r, rel) \<Longrightarrow> r \<noteq> [] \<Longrightarrow> sep fl \<in> set r"
  by (cases fl) (auto dest: posix_splitroot_root windows_splitroot_root)

lemma parse_parts_root:
  "root (parse_parts fl s) \<noteq> [] \<Longrightarrow> sep fl \<in> set (root (parse_parts fl s))"
  by (auto simp: parse_parts_def Let_def split: if_splits prod.splits dest: splitroot_root)

text \<open>The components of a parsed path below its anchor.\<close>

lemma parse_parts_shape:
  "\<exists>comps. parts (parse_parts fl s) =
      (if drv (parse_parts fl s) \<noteq> [] \<or> root (parse_parts fl s) \<noteq> []
       then [drv (parse_parts fl s) @ root (parse_parts fl s)] else []) @ comps \<and>
     (\<forall>c\<in>set comps. c \<noteq> [] \<and> sep fl \<notin> set c \<and> CHR ''/'' \<notin> set c)"
proof (cases "s = []")
  case True
  then show ?thesis by (simp add: parse_parts_def)
next
  case False
  define part where "part = (case altsep fl of None \<Rightarrow> s | Some a \<Rightarrow> replace_char a (sep fl) s)"
  obtain d r rel where sr: "splitroot fl part = (d, r, rel)" by (cases "splitroot fl part") auto
  define comps where "comps = filter (\<lambda>x. x \<noteq> [] \<and> x \<noteq> ''.'') (split_on (sep fl) rel)"
  have pp: "parse_parts fl s = \<lparr>drv = d, root = r,
              parts = (if d \<noteq> [] \<or> r \<noteq> [] then (d @ r) # comps else comps)\<rparr>"
    using False sr by (simp add: parse_parts_def Let_def part_def comps_def)
  have slash: "sep fl \<noteq> CHR ''/'' \<Longrightarrow> CHR ''/'' \<notin> set rel"
  proof (cases fl)
    case PosixFlavour
    assume "sep fl \<noteq> CHR ''/''"
    with PosixFlavour show ?thesis by simp
  next
    case WindowsFlavour
    then have "CHR ''/'' \<notin> set part"
      using replace_char_absent [of "CHR ''/''" backslash s]
      by (simp add: part_def backslash_def)
    moreover have "set rel \<subseteq> insert backslash (set part)"
      using sr WindowsFlavour by (auto dest: windows_splitroot_rel)
    ultimately show ?thesis by (auto simp: backslash_def)
  qed
  have "\<forall>c\<in>set comps. c \<noteq> [] \<and> sep fl \<notin> set c \<and> CHR ''/'' \<notin> set c"
  proof
    fix c assume "c \<in> set comps"
    then have c: "c \<in> set (split_on (sep fl) rel)" "c \<noteq> []" by (auto simp: comps_def)
    from c(1) have a: "sep fl \<notin> set c" by (rule split_on_free)
    from c(1) have "set c \<subseteq> set rel" by (rule split_on_subset)
    with slash a have "CHR ''/'' \<notin> set c" by (cases "sep fl = CHR ''/''") auto
    with a c(2) show "c \<noteq> [] \<and> sep fl \<notin> set c \<and> CHR ''/'' \<notin> set c" by simp
  qed
  with pp show ?thesis by auto
qed




lemma lower_char_backslash: "lower_char c = backslash \<longleftrightarrow> c = backslash"
proof
  assume h: "lower_char c = backslash"
  define n where "n = (of_char c :: nat)"
  show "c = backslash"
  proof (cases "(65 \<le> n \<and> n \<le> 90) \<or> (192 \<le> n \<and> n \<le> 214) \<or> (216 \<le> n \<and> n \<le> 222)")
    case True
    with h have "char_of (n + 32) = backslash" by (simp add: lower_char_def n_def Let_def)
    then have "(of_char (char_of (n + 32) :: char) :: nat) = of_char backslash" by simp
    then have "(n + 32) mod 256 = 92" by (simp add: backslash_def)
    moreover from True have "n + 32 < 256" by auto
    ultimately have "n + 32 = 92" by simp
    with True have False by auto
    then show ?thesis ..
  next
    case False
    have "lower_char c = c"
      unfolding lower_char_def Let_def by (rule if_not_P) (rule False [unfolded n_def])
    with h show ?thesis by simp
  qed
next
  assume "c = backslash"
  then show "lower_char c = backslash" by (simp add: lower_char_def backslash_def)
qed

lemma casefold_sep: "sep fl \<in> set (casefold fl s) \<longleftrightarrow> sep fl \<in> set s"
proof (cases fl)
  case PosixFlavour
  then show ?thesis by simp
next
  case WindowsFlavour
  have "backslash \<in> set (lower s) \<longleftrightarrow> backslash \<in> set s"
  proof
    assume "backslash \<in> set (lower s)"
    then obtain x where "x \<in> set s" "lower_char x = backslash" by (auto simp: lower_def)
    then show "backslash \<in> set s" by (simp add: lower_char_backslash)
  next
    assume "backslash \<in> set s"
    moreover have "lower_char backslash = backslash" by (simp add: lower_char_backslash)
    ultimately show "backslash \<in> set (lower s)" by (force simp: lower_def image_iff)
  qed
  with WindowsFlavour show ?thesis by simp
qed

lemma casefold_append: "casefold fl (a @ b) = casefold fl a @ casefold fl b"
  by (cases fl) (simp_all add: lower_def)


lemma casefold_parts_sep:
  assumes "casefold_parts fl xs = casefold_parts fl ys" and "i < length ys" and "sep fl \<in> set (ys ! i)"
  shows "i < length xs \<and> sep fl \<in> set (xs ! i)"
proof -
  from assms(1) have len: "length xs = length ys"
    by (metis casefold_parts_def length_map)
  from assms(1) have "map (casefold fl) xs ! i = map (casefold fl) ys ! i"
    by (simp add: casefold_parts_def)
  with len assms(2) have "casefold fl (xs ! i) = casefold fl (ys ! i)" by simp
  with assms(3) have "sep fl \<in> set (xs ! i)"
    by (metis casefold_sep)
  with len assms(2) show ?thesis by simp
qed

lemma relative_to_absolute:
  assumes rel: "relative_to fl (parse_parts fl f) (parse_parts fl d) = Inr r"
    and ab: "root (parse_parts fl d) \<noteq> []"
  shows "\<exists>pre comps.
           parts (parse_parts fl f) = pre @ comps \<and>
           casefold_parts fl pre = casefold_parts fl (parts (parse_parts fl d)) \<and>
           (\<forall>c\<in>set comps. c \<noteq> [] \<and> sep fl \<notin> set c \<and> CHR ''/'' \<notin> set c) \<and>
           r = \<lparr>drv = [], root = [], parts = comps\<rparr>"
proof -
  define pf where "pf = parse_parts fl f"
  define pc where "pc = parse_parts fl d"
  obtain cf where cf: "parts pf = (if drv pf \<noteq> [] \<or> root pf \<noteq> [] then [drv pf @ root pf] else []) @ cf"
    "\<forall>c\<in>set cf. c \<noteq> [] \<and> sep fl \<notin> set c \<and> CHR ''/'' \<notin> set c"
    using parse_parts_shape [of fl f] unfolding pf_def by blast
  obtain cc where cc: "parts pc = (if drv pc \<noteq> [] \<or> root pc \<noteq> [] then [drv pc @ root pc] else []) @ cc"
    using parse_parts_shape [of fl d] unfolding pc_def by blast
  have rc: "root pc \<noteq> []" using ab by (simp add: pc_def)
  have sepc: "sep fl \<in> set (root pc)" using parse_parts_root [of fl d] ab by (simp add: pc_def)
  have apc: "abs_parts pc = [drv pc, root pc] @ cc" using rc cc by (simp add: abs_parts_def)
  define n where "n = length (abs_parts pc)"
  have n: "n = 2 + length cc" by (simp add: n_def apc)
  from rel have eq: "casefold_parts fl (take n (abs_parts pf)) = casefold_parts fl (abs_parts pc)"
    and r: "r = \<lparr>drv = [], root = [], parts = drop n (abs_parts pf)\<rparr>"
    using n by (auto simp: relative_to_def Let_def pf_def pc_def n_def split: if_splits)
  have len: "length (take n (abs_parts pf)) = n"
    using eq by (metis casefold_parts_def length_map n_def)
  have "1 < length (take n (abs_parts pf)) \<and> sep fl \<in> set (take n (abs_parts pf) ! 1)"
    by (rule casefold_parts_sep [OF eq]) (simp_all add: apc sepc)
  then have sep1: "sep fl \<in> set (take n (abs_parts pf) ! 1)" ..
  have rf: "root pf \<noteq> []"
  proof
    assume no: "root pf = []"
    then have "abs_parts pf = parts pf" by (simp add: abs_parts_def)
    moreover have "1 < n" by (simp add: n)
    ultimately have "take n (abs_parts pf) ! 1 = parts pf ! 1" by simp
    moreover have "1 < length (parts pf)" using len \<open>abs_parts pf = parts pf\<close> n by auto
    ultimately have "take n (abs_parts pf) ! 1 \<in> set cf"
      using cf(1) no by (auto simp: nth_Cons' nth_append split: if_splits)
    with cf(2) sep1 show False by blast
  qed
  then have apf: "abs_parts pf = [drv pf, root pf] @ cf" and ppf: "parts pf = (drv pf @ root pf) # cf"
    using cf(1) by (simp_all add: abs_parts_def)
  have tk: "take n (abs_parts pf) = [drv pf, root pf] @ take (length cc) cf"
    by (simp add: apf n)
  from eq have e3: "casefold fl (drv pf) = casefold fl (drv pc)"
      "casefold fl (root pf) = casefold fl (root pc)"
      "map (casefold fl) (take (length cc) cf) = map (casefold fl) cc"
    by (simp_all add: tk apc casefold_parts_def)
  have "parts pf = ((drv pf @ root pf) # take (length cc) cf) @ drop (length cc) cf"
    by (simp add: ppf)
  moreover have "casefold_parts fl ((drv pf @ root pf) # take (length cc) cf) = casefold_parts fl (parts pc)"
    using e3 rc cc by (simp add: casefold_parts_def casefold_append)
  moreover have "\<forall>c\<in>set (drop (length cc) cf). c \<noteq> [] \<and> sep fl \<notin> set c \<and> CHR ''/'' \<notin> set c"
    using cf(2) by (meson in_set_dropD)
  moreover have "r = \<lparr>drv = [], root = [], parts = drop (length cc) cf\<rparr>"
    using r by (simp add: apf n)
  ultimately show ?thesis unfolding pf_def pc_def by blast
qed

lemma as_posix_relative:
  assumes "\<forall>c\<in>set comps. sep fl \<notin> set c"
  shows "as_posix fl \<lparr>drv = [], root = [], parts = comps\<rparr> =
           (if join [sep fl] comps = [] then ''.'' else join ''/'' comps)"
  using replace_char_join [OF assms, of "CHR ''/''"]
  by (cases fl) (auto simp: as_posix_def str_path_def format_parsed_parts_def Let_def replace_char_def backslash_def)

lemma join_Nil_iff: "\<forall>c\<in>set comps. c \<noteq> [] \<Longrightarrow> join s comps = [] \<longleftrightarrow> comps = []"
  by (induction s comps rule: join.induct) auto


subsection \<open>The steps of get_source_link\<close>

lemma get_source_link_InrE:
  assumes "get_source_link w item = Inr (url, loc, first)"
  obtains b src fn fl ext where
    "resolve_src w item = Inr (b, src, fn)"
    "line_range w b src = Inr (fl, ext)"
    "file_location w fn = Inr loc"
    "url = github_bot_repo w @ ''/blob/main/'' @ loc @ ext"
    "first = or_None fl"
  using assms
  by (auto simp: get_source_link_def split: sum.splits prod.splits)

lemma or_None_not_zero: "or_None x \<noteq> Some 0"
  by (cases x) auto

lemma line_text_or_None:
  "line_text (or_None x) = (case or_None x of None \<Rightarrow> [] | Some n \<Rightarrow> '':'' @ str_int n)"
  by (cases x) (auto simp: line_text_def)


lemma title_description_returns:
  assumes "(\<exists>c. source_object = Command c) \<or>
           (\<exists>g. source_object = Cog g \<and> cog_description g \<noteq> [])"
  shows "\<exists>title description. title_description source_object = Inr (title, description)"
  using assms splitlines_Nil_iff
  by (auto simp: title_description_def split: list.splits)

lemma relative_to_cases: "relative_to fl a b = Inl ValueError \<or> (\<exists>r. relative_to fl a b = Inr r)"
  by (simp add: relative_to_def Let_def)

lemma relative_to_outside:
  assumes ab: "root (parse_parts fl d) \<noteq> []"
    and out: "\<not> prefix (casefold_parts fl (parts (parse_parts fl d)))
                       (casefold_parts fl (parts (parse_parts fl f)))"
  shows "relative_to fl (parse_parts fl f) (parse_parts fl d) = Inl ValueError"
proof (rule ccontr)
  assume "relative_to fl (parse_parts fl f) (parse_parts fl d) \<noteq> Inl ValueError"
  with relative_to_cases [of fl "parse_parts fl f" "parse_parts fl d"]
  obtain r where "relative_to fl (parse_parts fl f) (parse_parts fl d) = Inr r" by blast
  from relative_to_absolute [OF this ab] obtain pre comps where
    "parts (parse_parts fl f) = pre @ comps"
    "casefold_parts fl pre = casefold_parts fl (parts (parse_parts fl d))"
    by blast
  then have "prefix (casefold_parts fl (parts (parse_parts fl d)))
                    (casefold_parts fl (parts (parse_parts fl f)))"
    by (simp add: casefold_parts_def)
  with out show False ..
qed

lemma file_location_absolute:
  assumes loc: "file_location w (Some filename) = Inr location"
    and ab: "root (parse_parts (path_flavour w) (getcwd w)) \<noteq> []"
  shows "\<exists>pre comps.
           parts (parse_parts (path_flavour w) filename) = pre @ comps \<and>
           casefold_parts (path_flavour w) pre =
             casefold_parts (path_flavour w) (parts (parse_parts (path_flavour w) (getcwd w))) \<and>
           (\<forall>c\<in>set comps. c \<noteq> [] \<and> sep (path_flavour w) \<notin> set c \<and> CHR ''/'' \<notin> set c) \<and>
           location = (if comps = [] then ''.'' else join ''/'' comps)"
proof -
  from loc obtain r where
    r: "relative_to (path_flavour w) (parse_parts (path_flavour w) filename)
          (parse_parts (path_flavour w) (getcwd w)) = Inr r"
    and l: "location = as_posix (path_flavour w) r"
    by (auto simp: file_location_def split: sum.splits)
  from relative_to_absolute [OF r ab] obtain pre comps where
    p: "parts (parse_parts (path_flavour w) filename) = pre @ comps"
       "casefold_parts (path_flavour w) pre =
          casefold_parts (path_flavour w) (parts (parse_parts (path_flavour w) (getcwd w)))"
       "\<forall>c\<in>set comps. c \<noteq> [] \<and> sep (path_flavour w) \<notin> set c \<and> CHR ''/'' \<notin> set c"
       "r = \<lparr>drv = [], root = [], parts = comps\<rparr>"
    by blast
  from p(3) have "location = (if comps = [] then ''.'' else join ''/'' comps)"
    using l p(4) as_posix_relative [of comps "path_flavour w"] join_Nil_iff [of comps "[sep (path_flavour w)]"]
    by simp
  with p show ?thesis by blast
qed

lemma join_free:
  "\<forall>c\<in>set comps. x \<notin> set c \<Longrightarrow> x \<notin> set s \<Longrightarrow> x \<notin> set (join s comps)"
  by (induction s comps rule: join.induct) auto


subsection \<open>The example world, evaluated\<close>

lemma resolve_src_not_str:
  assumes "resolve_src w source_item = Inr (b, src, fn)"
    and "(\<exists>c. source_item = Command c) \<or> (\<exists>g. source_item = Cog g)"
  shows "b = False"
  using assms
  by (auto simp: resolve_src_def Let_def split: callable.splits sum.splits py_exc.splits)

lemma line_range_lines:
  assumes "line_range w False src = Inr (fl, ext)"
  shows "\<exists>lines n. getsourcelines w src = Inr (lines, n) \<and> fl = Some n \<and>
           ext = ''#L'' @ str_int n @ ''-L'' @ str_int (n + int (length lines) - 1)"
  using assms
  by (auto simp: line_range_def split: sum.splits py_exc.splits)

lemma source_cog_link:
  "get_source_link posix_world (Cog source_cog) =
     Inr (''https://github.com/python-discord/sir-robin/blob/main/bot/exts/source.py#L13-L91'',
          ''bot/exts/source.py'', Some 13)"
  by (simp add: ex_defs eval_defs casefold_parts_def)

lemmas windows_eval_defs = windows_splitroot_def windows_unc_def windows_drive_root_def
  split_extended_path_def unc_result_def find_from_def is_drive_letter_def lower_def
  lower_char_def casefold_parts_def backslash_def Let_def

lemma windows_cog_link:
  "get_source_link windows_world (Cog source_cog) =
     Inr (''https://github.com/python-discord/sir-robin/blob/main/bot/exts/source.py#L13-L91'',
          ''bot/exts/source.py'', Some 13)"
  by (simp add: ex_defs eval_defs windows_eval_defs)

lemma windows_cwd_root:
  "root (parse_parts (path_flavour windows_world) (getcwd windows_world)) = [backslash]"
  by (simp add: ex_defs eval_defs windows_eval_defs)

lemma source_cmd_link:
  "get_source_link posix_world (Command source_cmd) =
     Inr (''https://github.com/python-discord/sir-robin/blob/main/bot/exts/source.py#L19-L39'',
          ''bot/exts/source.py'', Some 19)"
  by (simp add: ex_defs eval_defs casefold_parts_def)

lemma undocumented_cog_link:
  "get_source_link posix_world (Cog undocumented_cog) =
     Inr (''https://github.com/python-discord/sir-robin/blob/main/bot/exts/source.py#L13-L91'',
          ''bot/exts/source.py'', Some 13)"
  by (simp add: ex_defs eval_defs casefold_parts_def)

section \<open>The claims\<close>



text \<open>
  C2. A statically defined command: its unwrapped callback is a function,
  \<^verbatim>\<open>inspect.getsourcelines\<close> returns the source lines of its body (at least one) and
  their first line number \<open>n\<close>, and its file is below the working directory. Then
  \<^verbatim>\<open>get_source_link\<close> returns a URL that ends in \<open>#Ln-Lm\<close>, where \<open>m - n + 1\<close> is
  the number of source lines and \<open>n \<le> m\<close>.
\<close>

theorem command_line_range:
  assumes cb: "unwrap (cmd_callback c) = Function code"
    and ln: "getsourcelines w (CodeObj code) = Inr (lines, n)"
    and ne: "lines \<noteq> []"
    and rel: "relative_to (path_flavour w) (parse_parts (path_flavour w) (co_filename code))
                (parse_parts (path_flavour w) (getcwd w)) = Inr rel"
  shows "\<exists>m. get_source_link w (Command c) =
                Inr (github_bot_repo w @ ''/blob/main/'' @ as_posix (path_flavour w) rel
                       @ ''#L'' @ str_int n @ ''-L'' @ str_int m,
                     as_posix (path_flavour w) rel, or_None (Some n)) \<and>
              m - n + 1 = int (length lines) \<and> n \<le> m"
proof -
  from ne have "0 < length lines" by simp
  then have le: "n \<le> n + int (length lines) - 1" by simp
  have "get_source_link w (Command c) =
          Inr (github_bot_repo w @ ''/blob/main/'' @ as_posix (path_flavour w) rel
                 @ ''#L'' @ str_int n @ ''-L'' @ str_int (n + int (length lines) - 1),
               as_posix (path_flavour w) rel, or_None (Some n))"
    using cb ln rel
    by (simp add: get_source_link_def resolve_src_def line_range_def file_location_def)
  with le show ?thesis
    by (auto intro!: exI [of _ "n + int (length lines) - 1"])
qed

theorem command_line_range_witness:
  "unwrap (cmd_callback source_cmd) = Function source_code \<and>
   getsourcelines posix_world (CodeObj source_code) = Inr (replicate 21 [], 19) \<and>
   relative_to PosixFlavour (parse_parts PosixFlavour ''/bot/bot/exts/source.py'')
     (parse_parts PosixFlavour ''/bot'') =
       Inr \<lparr>drv = [], root = [], parts = [''bot'', ''exts'', ''source.py'']\<rparr> \<and>
   get_source_link posix_world (Command source_cmd) =
     Inr (''https://github.com/python-discord/sir-robin/blob/main/bot/exts/source.py#L19-L39'',
          ''bot/exts/source.py'', Some 19) \<and>
   (\<exists>m. get_source_link posix_world (Command source_cmd) =
          Inr (''https://github.com/python-discord/sir-robin/blob/main/bot/exts/source.py''
                 @ ''#L19-L'' @ str_int m, ''bot/exts/source.py'', Some 19) \<and>
        m - 19 + 1 = 21 \<and> 19 \<le> m)"
proof -
  have a: "unwrap (cmd_callback source_cmd) = Function source_code"
    and b: "getsourcelines posix_world (CodeObj source_code) = Inr (replicate 21 [], 19)"
    and c: "replicate 21 ([]::string) \<noteq> []"
    by (simp_all add: ex_defs)
  have d: "relative_to PosixFlavour (parse_parts PosixFlavour ''/bot/bot/exts/source.py'')
     (parse_parts PosixFlavour ''/bot'') =
       Inr \<lparr>drv = [], root = [], parts = [''bot'', ''exts'', ''source.py'']\<rparr>"
    by (simp add: eval_defs casefold_parts_def)
  have e: "get_source_link posix_world (Command source_cmd) =
     Inr (''https://github.com/python-discord/sir-robin/blob/main/bot/exts/source.py#L19-L39'',
          ''bot/exts/source.py'', Some 19)"
    by (simp add: ex_defs eval_defs casefold_parts_def)
  have "relative_to (path_flavour posix_world)
          (parse_parts (path_flavour posix_world) (co_filename source_code))
          (parse_parts (path_flavour posix_world) (getcwd posix_world)) =
        Inr \<lparr>drv = [], root = [], parts = [''bot'', ''exts'', ''source.py'']\<rparr>"
    using d by (simp add: ex_defs)
  from command_line_range [OF a b c this] a b d e show ?thesis
    by (simp add: posix_world_def sir_robin_repo_def as_posix_def str_path_def
        format_parsed_parts_def replace_char_def str_int_def str_nat.simps digit_char_def)
qed

text \<open>
  C3. For a cog that \<^verbatim>\<open>get_source_link\<close> resolves and whose description has a line
  (it is not empty), \<^verbatim>\<open>build_embed\<close> returns an embed whose title is \<open>Cog: \<close>
  followed by the qualified name of the cog, and whose description is the first line of
  the description of the cog only: its characters up to the first line boundary.
\<close>

theorem build_embed_cog_title:
  assumes "get_source_link w (Cog g) = Inr (url, location, first_line)"
    and "cog_description g \<noteq> []"
  shows "\<exists>e. build_embed w (Cog g) = Inr e \<and>
             embed_title e = Some (''Cog: '' @ cog_qualified_name g) \<and>
             embed_description e =
               Some (takeWhile (\<lambda>c. \<not> is_linebreak c) (cog_description g))"
proof -
  from splitlines_first_line [OF assms(2)] obtain rest where
    "splitlines (cog_description g) =
       takeWhile (\<lambda>c. \<not> is_linebreak c) (cog_description g) # rest" ..
  with assms(1) show ?thesis
    by (simp add: build_embed_def title_description_def set_footer_def add_field_def Embed_def)
qed

theorem build_embed_cog_title_witness:
  "get_source_link posix_world (Cog source_cog) =
     Inr (''https://github.com/python-discord/sir-robin/blob/main/bot/exts/source.py#L13-L91'',
          ''bot/exts/source.py'', Some 13) \<and>
   cog_description source_cog = ''Displays information'' @ [CHR 0x0A] @ ''about the bot.'' \<and>
   (\<exists>e. build_embed posix_world (Cog source_cog) = Inr e \<and>
        embed_title e = Some ''Cog: BotSource'' \<and>
        embed_description e = Some ''Displays information'')"
proof -
  have b: "cog_description source_cog \<noteq> []" by (simp add: source_cog_def)
  from build_embed_cog_title [OF source_cog_link b] show ?thesis
    using source_cog_link by (simp add: source_cog_def is_linebreak_def)
qed

text \<open>
  C4. Invoked with no source item, the command sends one embed whose only link is the
  configured repository URL itself, with nothing appended: no path, no line-range suffix,
  and no footer with a source location.
\<close>

theorem source_command_no_item:
  "source_command w ctx None =
     Inr (ctx\<lparr>sent := sent ctx @
       [\<lparr>embed_title = Some (''Sir Robin'' @ [apostrophe] @ ''s GitHub Repository''),
         embed_description = None,
         embed_fields = [\<lparr>field_name = ''Repository'',
                          field_value = ''[Go to GitHub]('' @ github_bot_repo w @ '')'',
                          field_inline = True\<rparr>],
         embed_thumbnail = Some ''https://avatars1.githubusercontent.com/u/9919'',
         embed_footer = None\<rparr>]\<rparr>)"
  by (simp add: source_command_def repository_embed_def send_def set_thumbnail_def add_field_def
      Embed_def thumbnail_url_def)

theorem source_command_no_item_witness:
  "source_command posix_world \<lparr>sent = []\<rparr> None =
     Inr \<lparr>sent =
       [\<lparr>embed_title = Some (''Sir Robin'' @ [apostrophe] @ ''s GitHub Repository''),
         embed_description = None,
         embed_fields = [\<lparr>field_name = ''Repository'',
                          field_value = ''[Go to GitHub](https://github.com/python-discord/sir-robin)'',
                          field_inline = True\<rparr>],
         embed_thumbnail = Some ''https://avatars1.githubusercontent.com/u/9919'',
         embed_footer = None\<rparr>]\<rparr>"
  using source_command_no_item [of posix_world "\<lparr>sent = []\<rparr>"]
  by (simp add: posix_world_def sir_robin_repo_def)

text \<open>
  C5. Invoked with the help command of the framework, the command sends one embed with a
  fixed title and description and the link to the repository root. The embed depends on the
  configured repository URL only: not on the help command object, and not on what the
  interpreter says about where its class is defined.
\<close>

theorem source_command_help:
  "source_command w ctx (Some (HelpCommand h)) =
     Inr (ctx\<lparr>sent := sent ctx @
       [\<lparr>embed_title = Some ''Help Command'',
         embed_description = Some (''We use Discord.py'' @ [apostrophe] @ ''s default help command.''),
         embed_fields = [\<lparr>field_name = ''Repository'',
                          field_value = ''[Go to GitHub]('' @ github_bot_repo w @ '')'',
                          field_inline = True\<rparr>],
         embed_thumbnail = Some ''https://avatars1.githubusercontent.com/u/9919'',
         embed_footer = None\<rparr>]\<rparr>)"
  by (simp add: source_command_def help_embed_def send_def set_thumbnail_def add_field_def
      Embed_def thumbnail_url_def)

theorem source_command_help_witness:
  "getsourcefile posix_world (help_type help_object) =
     Inr (Some ''/usr/lib/python3/site-packages/discord/ext/commands/help.py'') \<and>
   get_source_link posix_world (HelpCommand help_object) = Inl ValueError \<and>
   source_command posix_world \<lparr>sent = []\<rparr> (Some (HelpCommand help_object)) =
     Inr \<lparr>sent =
       [\<lparr>embed_title = Some ''Help Command'',
         embed_description = Some (''We use Discord.py'' @ [apostrophe] @ ''s default help command.''),
         embed_fields = [\<lparr>field_name = ''Repository'',
                          field_value = ''[Go to GitHub](https://github.com/python-discord/sir-robin)'',
                          field_inline = True\<rparr>],
         embed_thumbnail = Some ''https://avatars1.githubusercontent.com/u/9919'',
         embed_footer = None\<rparr>]\<rparr>"
proof -
  have "getsourcefile posix_world (help_type help_object) =
     Inr (Some ''/usr/lib/python3/site-packages/discord/ext/commands/help.py'')"
    by (simp add: ex_defs)
  moreover have "get_source_link posix_world (HelpCommand help_object) = Inl ValueError"
    by (simp add: ex_defs eval_defs casefold_parts_def)
  ultimately show ?thesis
    using source_command_help [of posix_world "\<lparr>sent = []\<rparr>" help_object]
    by (simp add: posix_world_def sir_robin_repo_def)
qed

text \<open>
  C6. When \<^verbatim>\<open>get_source_link\<close> returns for a command or a cog (the working directory
  being an absolute path, as \<^verbatim>\<open>os.getcwd()\<close> gives it), the URL is the repository URL,
  \<open>/blob/main/\<close>, the location and the suffix \<open>#Lfirst-Llast\<close>. The location is made
  of the components of the file's path that follow those of the working directory (compared
  as the host compares paths), joined by \<open>/\<close>; no component contains \<open>/\<close> or the
  separator of the host, so on a Windows host the location has no backslash.
\<close>

theorem get_source_link_url:
  assumes ok: "get_source_link w source_item = Inr (url, location, first_line)"
    and item: "(\<exists>c. source_item = Command c) \<or> (\<exists>g. source_item = Cog g)"
    and cwd: "root (parse_parts (path_flavour w) (getcwd w)) \<noteq> []"
  shows "\<exists>src filename lines first_line_no pre comps.
           resolve_src w source_item = Inr (False, src, Some filename) \<and>
           getsourcelines w src = Inr (lines, first_line_no) \<and>
           parts (parse_parts (path_flavour w) filename) = pre @ comps \<and>
           casefold_parts (path_flavour w) pre =
             casefold_parts (path_flavour w) (parts (parse_parts (path_flavour w) (getcwd w))) \<and>
           (\<forall>c\<in>set comps. c \<noteq> [] \<and> sep (path_flavour w) \<notin> set c \<and> CHR ''/'' \<notin> set c) \<and>
           location = (if comps = [] then ''.'' else join ''/'' comps) \<and>
           (path_flavour w = WindowsFlavour \<longrightarrow> backslash \<notin> set location) \<and>
           url = github_bot_repo w @ ''/blob/main/'' @ location
                   @ ''#L'' @ str_int first_line_no @ ''-L''
                   @ str_int (first_line_no + int (length lines) - 1)"
proof -
  from ok obtain b src fn fl ext where
    rs: "resolve_src w source_item = Inr (b, src, fn)"
    and lr: "line_range w b src = Inr (fl, ext)"
    and loc: "file_location w fn = Inr location"
    and url: "url = github_bot_repo w @ ''/blob/main/'' @ location @ ext"
    by (rule get_source_link_InrE)
  from rs item have b: "b = False" by (rule resolve_src_not_str)
  from loc obtain filename where fn: "fn = Some filename"
    by (cases fn) (auto simp: file_location_def)
  from lr b obtain lines n where
    ln: "getsourcelines w src = Inr (lines, n)"
    and ext: "ext = ''#L'' @ str_int n @ ''-L'' @ str_int (n + int (length lines) - 1)"
    using line_range_lines by blast
  from file_location_absolute [OF loc [unfolded fn] cwd] obtain pre comps where
    p: "parts (parse_parts (path_flavour w) filename) = pre @ comps"
       "casefold_parts (path_flavour w) pre =
          casefold_parts (path_flavour w) (parts (parse_parts (path_flavour w) (getcwd w)))"
       "\<forall>c\<in>set comps. c \<noteq> [] \<and> sep (path_flavour w) \<notin> set c \<and> CHR ''/'' \<notin> set c"
       "location = (if comps = [] then ''.'' else join ''/'' comps)"
    by blast
  have bs: "path_flavour w = WindowsFlavour \<longrightarrow> backslash \<notin> set location"
  proof
    assume "path_flavour w = WindowsFlavour"
    with p(3) have "\<forall>c\<in>set comps. backslash \<notin> set c" by simp
    then have "backslash \<notin> set (join ''/'' comps)"
      by (rule join_free) (simp add: backslash_def)
    with p(4) show "backslash \<notin> set location" by (simp add: backslash_def)
  qed
  from rs b fn ln p bs url ext show ?thesis by blast
qed

theorem get_source_link_url_witness:
  "get_source_link windows_world (Cog source_cog) =
     Inr (''https://github.com/python-discord/sir-robin/blob/main/bot/exts/source.py#L13-L91'',
          ''bot/exts/source.py'', Some 13) \<and>
   root (parse_parts (path_flavour windows_world) (getcwd windows_world)) = [backslash] \<and>
   (\<exists>src filename lines first_line_no pre comps.
       resolve_src windows_world (Cog source_cog) = Inr (False, src, Some filename) \<and>
       getsourcelines windows_world src = Inr (lines, first_line_no) \<and>
       parts (parse_parts WindowsFlavour filename) = pre @ comps \<and>
       casefold_parts WindowsFlavour pre =
         casefold_parts WindowsFlavour (parts (parse_parts WindowsFlavour (getcwd windows_world))) \<and>
       ''bot/exts/source.py'' = (if comps = [] then ''.'' else join ''/'' comps) \<and>
       backslash \<notin> set ''bot/exts/source.py'')"
proof -
  have cwd: "root (parse_parts (path_flavour windows_world) (getcwd windows_world)) \<noteq> []"
    by (simp add: windows_cwd_root)
  have item: "(\<exists>c. Cog source_cog = Command c) \<or> (\<exists>g. Cog source_cog = Cog g)" by simp
  have fl: "path_flavour windows_world = WindowsFlavour" by (simp add: windows_world_def)
  from get_source_link_url [OF windows_cog_link item cwd]
  show ?thesis
    using windows_cog_link windows_cwd_root unfolding fl by blast
qed

text \<open>
  C7. For a source item that \<^verbatim>\<open>get_source_link\<close> resolves (a command, or a cog with a
  description that is not empty), \<^verbatim>\<open>build_embed\<close> returns an embed whose footer is the
  location that \<^verbatim>\<open>get_source_link\<close> returned, followed by \<open>:\<close> and the first line
  number when \<^verbatim>\<open>get_source_link\<close> returned one, and by nothing when it returned
  \<^verbatim>\<open>None\<close>. A returned line number is never 0, so the test \<^verbatim>\<open>if first_line\<close>
  omits the line exactly when there is none.
\<close>

theorem build_embed_footer:
  assumes g: "get_source_link w source_object = Inr (url, location, first_line)"
    and item: "(\<exists>c. source_object = Command c) \<or>
               (\<exists>g. source_object = Cog g \<and> cog_description g \<noteq> [])"
  shows "\<exists>e. build_embed w source_object = Inr e \<and>
             first_line \<noteq> Some 0 \<and>
             embed_footer e =
               Some (location @ (case first_line of None \<Rightarrow> [] | Some n \<Rightarrow> '':'' @ str_int n))"
proof -
  from title_description_returns [OF item] obtain title description where
    td: "title_description source_object = Inr (title, description)" by blast
  from g obtain fl where fl: "first_line = or_None fl"
    by (rule get_source_link_InrE)
  have z: "first_line \<noteq> Some 0" unfolding fl by (rule or_None_not_zero)
  have "build_embed w source_object =
          Inr (set_footer (location @ line_text first_line)
                 (add_field ''Source Code'' (''[Go to GitHub]('' @ url @ '')'')
                    (Embed (Some title) (Some description))))"
    using g td by (simp add: build_embed_def)
  moreover have "line_text first_line =
      (case first_line of None \<Rightarrow> [] | Some n \<Rightarrow> '':'' @ str_int n)"
    unfolding fl by (rule line_text_or_None)
  ultimately show ?thesis using z by (simp add: set_footer_def)
qed

theorem build_embed_footer_witness:
  "get_source_link posix_world (Command source_cmd) =
     Inr (''https://github.com/python-discord/sir-robin/blob/main/bot/exts/source.py#L19-L39'',
          ''bot/exts/source.py'', Some 19) \<and>
   (\<exists>e. build_embed posix_world (Command source_cmd) = Inr e \<and>
        embed_footer e = Some ''bot/exts/source.py:19'')"
proof -
  have "(\<exists>c. Command source_cmd = Command c) \<or>
        (\<exists>g. Command source_cmd = Cog g \<and> cog_description g \<noteq> [])" by simp
  from build_embed_footer [OF source_cmd_link this] source_cmd_link show ?thesis
    by (simp add: str_int_def str_nat.simps digit_char_def)
qed



text \<open>
  C9. For a cog that \<^verbatim>\<open>get_source_link\<close> resolves and whose description is the empty
  string, \<^verbatim>\<open>splitlines()\<close> gives no line and \<^verbatim>\<open>build_embed\<close> ends with
  \<^verbatim>\<open>IndexError\<close>: there is no embed and no \<^verbatim>\<open>BadArgument\<close>.
\<close>

theorem build_embed_empty_description:
  assumes "get_source_link w (Cog g) = Inr r"
    and "cog_description g = []"
  shows "splitlines (cog_description g) = [] \<and> build_embed w (Cog g) = Inl IndexError"
  using assms
  by (cases r) (simp add: build_embed_def title_description_def splitlines_def)

theorem build_embed_empty_description_witness:
  "get_source_link posix_world (Cog undocumented_cog) =
     Inr (''https://github.com/python-discord/sir-robin/blob/main/bot/exts/source.py#L13-L91'',
          ''bot/exts/source.py'', Some 13) \<and>
   cog_description undocumented_cog = [] \<and>
   build_embed posix_world (Cog undocumented_cog) = Inl IndexError"
proof -
  have d: "cog_description undocumented_cog = []" by (simp add: undocumented_cog_def)
  from build_embed_empty_description [OF undocumented_cog_link d] undocumented_cog_link d
  show ?thesis by simp
qed

text \<open>
  C10. For a command or a cog whose source file and source lines the interpreter finds,
  but whose file is not below the working directory (the parts of the working directory,
  an absolute path, are not a prefix of the parts of the file's path, compared as the host
  compares paths), \<^verbatim>\<open>get_source_link\<close> ends with the \<^verbatim>\<open>ValueError\<close> of
  \<^verbatim>\<open>relative_to\<close>: neither \<^verbatim>\<open>BadArgument\<close> nor a link.
\<close>

theorem get_source_link_outside_cwd:
  assumes src: "(\<exists>c code. source_item = Command c \<and> unwrap (cmd_callback c) = Function code \<and>
                   filename = co_filename code \<and>
                   getsourcelines w (CodeObj code) = Inr (lines, n)) \<or>
                (\<exists>g. source_item = Cog g \<and>
                   getsourcefile w (cog_type g) = Inr (Some filename) \<and>
                   getsourcelines w (ClassObj (cog_type g)) = Inr (lines, n))"
    and cwd: "root (parse_parts (path_flavour w) (getcwd w)) \<noteq> []"
    and out: "\<not> prefix (casefold_parts (path_flavour w) (parts (parse_parts (path_flavour w) (getcwd w))))
                       (casefold_parts (path_flavour w) (parts (parse_parts (path_flavour w) filename)))"
  shows "get_source_link w source_item = Inl ValueError"
proof -
  have "file_location w (Some filename) = Inl ValueError"
    using relative_to_outside [OF cwd out] by (simp add: file_location_def)
  with src show ?thesis
    by (auto simp: get_source_link_def resolve_src_def line_range_def)
qed

theorem get_source_link_outside_cwd_witness:
  "getsourcefile posix_world (cog_type library_cog) =
     Inr (Some ''/usr/lib/python3/site-packages/extlib/cog.py'') \<and>
   getsourcelines posix_world (ClassObj (cog_type library_cog)) = Inr (replicate 40 [], 7) \<and>
   parts (parse_parts PosixFlavour (getcwd posix_world)) = [''/'', ''bot''] \<and>
   parts (parse_parts PosixFlavour ''/usr/lib/python3/site-packages/extlib/cog.py'') =
     [''/'', ''usr'', ''lib'', ''python3'', ''site-packages'', ''extlib'', ''cog.py''] \<and>
   get_source_link posix_world (Cog library_cog) = Inl ValueError \<and>
   unwrap (cmd_callback library_cmd) = Function library_code \<and>
   getsourcelines posix_world (CodeObj library_code) = Inr (replicate 12 [], 238) \<and>
   parts (parse_parts PosixFlavour (co_filename library_code)) =
     [''/'', ''usr'', ''lib'', ''python3'', ''site-packages'', ''discord'', ''ext'', ''commands'',
      ''help.py''] \<and>
   get_source_link posix_world (Command library_cmd) = Inl ValueError"
proof -
  have a: "getsourcefile posix_world (cog_type library_cog) =
     Inr (Some ''/usr/lib/python3/site-packages/extlib/cog.py'')"
    and b: "getsourcelines posix_world (ClassObj (cog_type library_cog)) = Inr (replicate 40 [], 7)"
    and a': "unwrap (cmd_callback library_cmd) = Function library_code"
    and b': "getsourcelines posix_world (CodeObj library_code) = Inr (replicate 12 [], 238)"
    by (simp_all add: ex_defs)
  have c: "parts (parse_parts PosixFlavour (getcwd posix_world)) = [''/'', ''bot'']"
    and d: "parts (parse_parts PosixFlavour ''/usr/lib/python3/site-packages/extlib/cog.py'') =
     [''/'', ''usr'', ''lib'', ''python3'', ''site-packages'', ''extlib'', ''cog.py'']"
    and d': "parts (parse_parts PosixFlavour (co_filename library_code)) =
     [''/'', ''usr'', ''lib'', ''python3'', ''site-packages'', ''discord'', ''ext'', ''commands'',
      ''help.py'']"
    and r: "root (parse_parts PosixFlavour (getcwd posix_world)) \<noteq> []"
    by (simp_all add: ex_defs eval_defs)
  have fl: "path_flavour posix_world = PosixFlavour" by (simp add: posix_world_def)
  have "get_source_link posix_world (Cog library_cog) = Inl ValueError"
    by (rule get_source_link_outside_cwd [where filename = "''/usr/lib/python3/site-packages/extlib/cog.py''"
          and lines = "replicate 40 []" and n = 7])
       (use a b c d r in \<open>simp_all add: fl casefold_parts_def\<close>)
  moreover have "get_source_link posix_world (Command library_cmd) = Inl ValueError"
    by (rule get_source_link_outside_cwd [where filename = "co_filename library_code"
          and lines = "replicate 12 []" and n = 238])
       (use a' b' c d' r in \<open>simp_all add: fl casefold_parts_def\<close>)
  ultimately show ?thesis using a b c d a' b' d' by simp
qed

end
